theory Spec2Isabelle
  imports Complex_Main
begin

section \<open>Data model\<close>

text \<open>
  The replay code works on tuples \<open>(t, x, y)\<close> of Python and numpy numbers. A sample is a
  triple; \<open>p[0]\<close> is \<open>fst p\<close> and \<open>p[1:]\<close> is \<open>snd p\<close>, the coordinate pair.

  The numbers are modelled as exact reals. The source computes with Python integers,
  numpy's 64-bit integers and binary64 floats: comparisons are exact there too, but sums,
  differences, products and quotients can round, overflow to an infinity or a NaN, or
  raise. Model and source agree where every such operation is exact or its rounding does
  not matter; the predicates \<open>exact_time\<close>, \<open>no_overflow\<close> and \<open>no_underflow\<close> below
  delimit such inputs, and each general theorem whose statement depends on the arithmetic
  assumes them. The evaluations at concrete inputs use small integers only.
\<close>

type_synonym coords = "real \<times> real"
type_synonym sample = "real \<times> coords"

text \<open>The exceptions the modelled functions can raise.\<close>

datatype error =
    IndexError          \<comment> \<open>subscript of a list out of range\<close>
  | StopIteration       \<comment> \<open>\<open>next\<close> on an exhausted generator\<close>
  | ZeroDivisionError   \<comment> \<open>division by zero (\<open>FloatingPointError\<close> for numpy scalars)\<close>
  | NumpyError          \<comment> \<open>shape or empty-array failure inside numpy\<close>

text \<open>An \<open>osrparse.ReplayEvent\<close> and the \<open>Replay\<close> class.\<close>

datatype replay_event = ReplayEvent
  (time_since_previous_action: int) (ev_x: real) (ev_y: real) (keys_pressed: int)

record replay =
  player_name :: string
  play_data :: "replay_event list"

section \<open>Python list access\<close>

text \<open>\<open>xs[k]\<close>: a negative index counts from the end, out of range raises.\<close>

definition py_nth :: "'a list \<Rightarrow> int \<Rightarrow> error + 'a" where
  "py_nth xs k =
     (let n = int (length xs); k' = (if k < 0 then k + n else k)
      in if k' < 0 \<or> n \<le> k' then Inl IndexError else Inr (xs ! nat k'))"

text \<open>\<open>xs[k:]\<close>: a negative start counts from the end and is clipped at the front.\<close>

definition py_slice_from :: "'a list \<Rightarrow> int \<Rightarrow> 'a list" where
  "py_slice_from xs k =
     (if k < 0 then drop (nat (int (length xs) + k)) xs else drop (nat k) xs)"

section \<open>Class \<open>Interpolation\<close>\<close>

text \<open>
  \<open>Interpolation.linear\<close> and \<open>Interpolation.before\<close>, under class-qualified names
  (\<open>linear\<close> is a constant of the library).
\<close>

definition interpolation_linear :: "coords \<Rightarrow> coords \<Rightarrow> real \<Rightarrow> coords" where
  "interpolation_linear x1 x2 r = ((1 - r) * fst x1 + r * fst x2, (1 - r) * snd x1 + r * snd x2)"

definition interpolation_before :: "coords \<Rightarrow> coords \<Rightarrow> real \<Rightarrow> coords" where
  "interpolation_before x1 x2 r = x2"

section \<open>\<open>Replay.interpolate\<close>\<close>

text \<open>
  \<open>next((i for (i, p) in enumerate(data1) if p[0] > t0))\<close>: the smallest index whose
  timestamp exceeds \<open>t0\<close>; \<open>None\<close> stands for the exhausted generator.
\<close>

fun next_index :: "sample list \<Rightarrow> real \<Rightarrow> nat \<Rightarrow> nat option" where
  "next_index [] t0 i = None"
| "next_index (p # ps) t0 i = (if fst p > t0 then Some i else next_index ps t0 (Suc i))"

text \<open>
  The head-trim step (source lines 137 to 141), on the oriented pair: \<open>data2\<close> is not
  empty there, its first element was read by the orientation test.
\<close>

definition head_trim :: "sample list \<Rightarrow> sample list \<Rightarrow> error + sample list" where
  "head_trim data1 data2 =
     (case next_index data1 (fst (hd data2)) 0 of
        None \<Rightarrow> Inl StopIteration
      | Some i \<Rightarrow>
          Inr (if length data1 < length data2 then py_slice_from data1 (int i)
               else py_slice_from data1 (int i - 1)))"

text \<open>The inner loop \<open>while j < len(data2) - 1 and data2[j][0] < between[0]: j += 1\<close>.\<close>

function advance :: "sample list \<Rightarrow> real \<Rightarrow> nat \<Rightarrow> nat" where
  "advance data2 t j =
     (if int j < int (length data2) - 1 \<and> fst (data2 ! j) < t
      then advance data2 t (j + 1) else j)"
  by pat_completeness auto
termination
  by (relation "measure (\<lambda>(data2, t, j). length data2 - j)") auto

declare advance.simps [simp del]

text \<open>
  The sweep \<open>for between in data1\<close> (source lines 148 to 189), with the loop state
  \<open>j\<close>, \<open>inter\<close> (here \<open>inters\<close>) and \<open>clean\<close> passed along. \<open>break\<close> returns the state as
  it is; each \<open>continue\<close> and the end of the body go on with the rest of \<open>data1\<close>. The
  arguments \<open>data2\<close> and the list swept are the source and the reference after the swaps.
  The interpolation is a function on reals: a numeric fault or a NaN of the source's float
  arithmetic has no counterpart here (\<open>exact_time\<close> and \<open>no_overflow\<close> below exclude them
  for the linear interpolation).
\<close>

fun sweep ::
  "(coords \<Rightarrow> coords \<Rightarrow> real \<Rightarrow> coords) \<Rightarrow> sample list \<Rightarrow> sample list \<Rightarrow>
   nat \<Rightarrow> sample list \<Rightarrow> sample list \<Rightarrow> error + (sample list \<times> sample list)" where
  "sweep interpolation data2 [] j inters clean = Inr (clean, inters)"
| "sweep interpolation data2 (between # rest) j inters clean =
     (let clean' = clean @ [between];
          j' = advance data2 (fst between) j
      in if int j' = int (length data2) - 1 then Inr (clean', inters)
         else
           (case (py_nth data2 (int j'), py_nth data2 (int j' + 1)) of
              (Inr before_pt, Inr after_pt) \<Rightarrow>
                (let dt1 = fst between - fst before_pt;
                     dt2 = fst after_pt - fst before_pt
                 in if dt2 = 0
                    then sweep interpolation data2 rest j'
                           (inters @ [(fst between, snd before_pt)]) clean'
                    else
                      (let x_inter = interpolation (snd before_pt) (snd after_pt) (dt1 / dt2)
                       in if \<bar>fst x_inter\<bar> > 600 \<or> \<bar>snd x_inter\<bar> > 600
                          then sweep interpolation data2 rest j' (inters @ [between]) clean'
                          else sweep interpolation data2 rest j'
                                 (inters @ [(fst between, x_inter)]) clean'))
            | _ \<Rightarrow> Inl IndexError))"

text \<open>
  Everything after the orientation swap (source lines 136 to 194), with the flag
  \<open>flipped\<close> as the swap left it.
\<close>

definition interpolate_oriented ::
  "bool \<Rightarrow> sample list \<Rightarrow> sample list \<Rightarrow> (coords \<Rightarrow> coords \<Rightarrow> real \<Rightarrow> coords) \<Rightarrow> bool \<Rightarrow>
   error + (sample list \<times> sample list)" where
  "interpolate_oriented flipped data1 data2 interpolation unflip =
     (case head_trim data1 data2 of
        Inl e \<Rightarrow> Inl e
      | Inr data1' \<Rightarrow>
          (let (flipped', reference, source) =
                 (if length data1' > length data2 then (\<not> flipped, data2, data1')
                  else (flipped, data1', data2))
           in case sweep interpolation source reference 0 [] [] of
                Inl e \<Rightarrow> Inl e
              | Inr (clean, inters) \<Rightarrow>
                  if unflip \<and> flipped' then Inr (inters, clean) else Inr (clean, inters)))"

text \<open>
  The orientation swap (source lines 128 to 134): the flag and the pair after it.
  Reading \<open>data1[0]\<close> or \<open>data2[0]\<close> of an empty list raises before it.
\<close>

definition orient :: "sample list \<Rightarrow> sample list \<Rightarrow> bool \<times> sample list \<times> sample list" where
  "orient data1 data2 =
     (if fst (hd data1) > fst (hd data2) then (True, data2, data1) else (False, data1, data2))"

definition interpolate ::
  "sample list \<Rightarrow> sample list \<Rightarrow> (coords \<Rightarrow> coords \<Rightarrow> real \<Rightarrow> coords) \<Rightarrow> bool \<Rightarrow>
   error + (sample list \<times> sample list)" where
  "interpolate data1 data2 interpolation unflip =
     (if data1 = [] \<or> data2 = [] then Inl IndexError
      else
        (let (flipped, data1', data2') = orient data1 data2
         in interpolate_oriented flipped data1' data2' interpolation unflip))"

section \<open>\<open>Replay.resample\<close>\<close>

text \<open>
  The inner loop \<open>while timestamped[i][0] < t: i += 1\<close>. Nothing in the loop bounds
  \<open>i\<close>: reading past the end raises.
\<close>

function seek :: "sample list \<Rightarrow> real \<Rightarrow> nat \<Rightarrow> error + nat" where
  "seek timestamped t i =
     (if length timestamped \<le> i then Inl IndexError
      else if fst (timestamped ! i) < t then seek timestamped t (i + 1)
      else Inr i)"
  by pat_completeness auto
termination
  by (relation "measure (\<lambda>(timestamped, t, i). length timestamped - i)") auto

declare seek.simps [simp del]

text \<open>
  The outer loop \<open>while t < t_max\<close>. With a negative frequency \<open>t\<close> moves away from
  \<open>t_max\<close> and the loop never ends, so the loop is a partial function: \<open>None\<close> is
  "does not return". \<open>timestamped[i - 1]\<close> with \<open>i = 0\<close> reads the last sample. The sum
  \<open>t + 1000 / frequency\<close> is the exact one; the binary64 sum of the source equals it when
  \<open>t\<close> and the step are integers (\<open>exact_time\<close>, \<open>exact_step\<close> below).
\<close>

partial_function (option) resample_loop ::
  "sample list \<Rightarrow> real \<Rightarrow> real \<Rightarrow> nat \<Rightarrow> real \<Rightarrow> sample list \<Rightarrow> (error + sample list) option"
where
  "resample_loop timestamped frequency t_max i t resampled =
     (if t < t_max then
        (case seek timestamped t i of
           Inl e \<Rightarrow> Some (Inl e)
         | Inr i' \<Rightarrow>
             (case (py_nth timestamped (int i' - 1), py_nth timestamped (int i')) of
                (Inr prev, Inr cur) \<Rightarrow>
                  (let dt1 = t - fst prev;
                       dt2 = fst cur - fst prev
                   in if dt2 = 0 then Some (Inl ZeroDivisionError)
                      else
                        (let inter' = interpolation_linear (snd prev) (snd cur) (dt1 / dt2);
                             resampled' = resampled @ [(t, inter')]
                         in if frequency = 0 then Some (Inl ZeroDivisionError)
                            else resample_loop timestamped frequency t_max i'
                                   (t + 1000 / frequency) resampled'))
              | _ \<Rightarrow> Some (Inl IndexError)))
      else Some (Inr resampled))"

declare resample_loop.simps [code]

definition resample :: "sample list \<Rightarrow> real \<Rightarrow> (error + sample list) option" where
  "resample timestamped frequency =
     (case timestamped of
        [] \<Rightarrow> Some (Inl IndexError)
      | first # _ \<Rightarrow>
          resample_loop timestamped frequency (fst (last timestamped)) 0 (fst first) [])"

section \<open>\<open>Replay.skip_breaks\<close>\<close>

text \<open>
  The loop \<open>for event in timestamped\<close> with its state. The differences are the exact
  ones; those of the source equal them on integer timestamps (\<open>exact_time\<close> below).
\<close>

fun skip_breaks_loop ::
  "real \<Rightarrow> sample list \<Rightarrow> real \<Rightarrow> real \<Rightarrow> sample list \<Rightarrow> sample list" where
  "skip_breaks_loop break_threshold [] total_break_time t_prev skipped = skipped"
| "skip_breaks_loop break_threshold (event # rest) total_break_time t_prev skipped =
     (let dt = fst event - t_prev;
          total_break_time' =
            (if dt > break_threshold then total_break_time + dt else total_break_time)
      in skip_breaks_loop break_threshold rest total_break_time' (fst event)
           (skipped @ [(fst event - total_break_time', snd event)]))"

definition skip_breaks :: "sample list \<Rightarrow> real \<Rightarrow> error + sample list" where
  "skip_breaks timestamped break_threshold =
     (case timestamped of
        [] \<Rightarrow> Inl IndexError
      | first # _ \<Rightarrow> Inr (skip_breaks_loop break_threshold timestamped 0 (fst first) []))"

section \<open>\<open>Replay.as_list_with_timestamps\<close>\<close>

text \<open>
  \<open>numpy.cumsum\<close> of the time offsets, the running total passed along. The offsets are
  64-bit integers (as the replay format stores them), the array is an \<open>int64\<close> array, and its
  sums wrap around silently: \<open>wrap64\<close> is the value of an integer in two's complement.
\<close>

definition wrap64 :: "int \<Rightarrow> int" where
  "wrap64 n = (n + 2 ^ 63) mod 2 ^ 64 - 2 ^ 63"

fun cumsum :: "int \<Rightarrow> int list \<Rightarrow> int list" where
  "cumsum acc [] = []"
| "cumsum acc (d # ds) = wrap64 (acc + d) # cumsum (wrap64 (acc + d)) ds"

text \<open>
  No statement of the method raises on an empty \<open>play_data\<close>: the array, the zip and the
  sorted list are empty. Python's \<open>sort\<close> is stable, as \<open>sort_key\<close> is.
\<close>

definition as_list_with_timestamps :: "replay \<Rightarrow> sample list" where
  "as_list_with_timestamps self =
     (let timestamps = cumsum 0 (map time_since_previous_action (play_data self));
          txy = map (\<lambda>z. (real_of_int (fst z), ev_x (snd z), ev_y (snd z)))
                  (zip timestamps (play_data self))
      in sort_key fst txy)"

section \<open>\<open>Comparer._compute_data_similarity\<close>\<close>

text \<open>
  Mean and population standard deviation of the pointwise Euclidean distances. With an
  empty shorter list numpy fails (on the shapes, or on the mean of nothing under
  \<open>np.seterr(all='raise')\<close>).
\<close>

definition compute_data_similarity :: "coords list \<Rightarrow> coords list \<Rightarrow> error + (real \<times> real)" where
  "compute_data_similarity data1 data2 =
     (let (data1', data2') =
            (if length data2 > length data1 then (data2, data1) else (data1, data2));
          shortest = length data2'
      in if shortest = 0 then Inl NumpyError
         else
           (let distance =
                  map (\<lambda>(p, q). sqrt ((fst p - fst q)\<^sup>2 + (snd p - snd q)\<^sup>2))
                    (zip (take shortest data1') data2');
                mu = sum_list distance / real shortest;
                sigma = sqrt (sum_list (map (\<lambda>d. (d - mu)\<^sup>2) distance) / real shortest)
            in Inr (mu, sigma)))"

text \<open>
  \<open>Comparer._compare_two_replays\<close> from the two sample lists on (source lines 141 to
  149): align with the default arguments, drop the time column, score.
\<close>

definition compare_samples :: "sample list \<Rightarrow> sample list \<Rightarrow> error + (real \<times> real)" where
  "compare_samples data1 data2 =
     (case interpolate data1 data2 interpolation_linear False of
        Inl e \<Rightarrow> Inl e
      | Inr (data1', data2') \<Rightarrow> compute_data_similarity (map snd data1') (map snd data2'))"

definition compare_two_replays :: "replay \<Rightarrow> replay \<Rightarrow> error + (real \<times> real)" where
  "compare_two_replays replay1 replay2 =
     compare_samples (as_list_with_timestamps replay1) (as_list_with_timestamps replay2)"

section \<open>\<open>Comparer._print_result\<close>\<close>

text \<open>
  What \<open>_print_result\<close> prints: the two statistics and the two player names. \<open>None\<close> is
  the early \<open>return\<close> that prints nothing. The prompt for a visualisation that follows
  the printed line does not change what was printed and is left out.
\<close>

record outcome =
  similarity :: real
  std_deviation :: real
  name1 :: string
  name2 :: string

definition print_result :: "real \<Rightarrow> real \<times> real \<Rightarrow> replay \<Rightarrow> replay \<Rightarrow> outcome option" where
  "print_result threshold result replay1 replay2 =
     (let mean = fst result; sigma = snd result
      in if mean > threshold then None
         else Some \<lparr>similarity = mean, std_deviation = sigma,
                    name1 = player_name replay1, name2 = player_name replay2\<rparr>)"

section \<open>Inputs on which the source computes as the model does\<close>

text \<open>
  A timestamp that is an integer of magnitude at most \<open>2^50\<close>: differences and sums
  of two or three such timestamps are exact in Python integers, in 64-bit integers and in
  binary64, a quotient of two differences has magnitude between \<open>2^-52\<close> and \<open>2^52\<close> or is
  zero, and a difference is zero exactly when the timestamps are equal.
\<close>

definition exact_time :: "sample \<Rightarrow> bool" where
  "exact_time s \<longleftrightarrow> real_of_int \<lfloor>fst s\<rfloor> = fst s \<and> \<bar>fst s\<bar> \<le> 2 ^ 50"

text \<open>
  Coordinates whose products with such quotients, and the sums of two of them, stay
  finite in binary64 (no infinity, hence no NaN), and coordinates for which these do not
  underflow either (numpy raises on underflow under \<open>np.seterr(all='raise')\<close>).
\<close>

definition no_overflow :: "sample \<Rightarrow> bool" where
  "no_overflow s \<longleftrightarrow> \<bar>fst (snd s)\<bar> \<le> 2 ^ 300 \<and> \<bar>snd (snd s)\<bar> \<le> 2 ^ 300"

definition no_underflow :: "sample \<Rightarrow> bool" where
  "no_underflow s \<longleftrightarrow>
     (fst (snd s) = 0 \<or> 1 / 2 ^ 300 \<le> \<bar>fst (snd s)\<bar>) \<and>
     (snd (snd s) = 0 \<or> 1 / 2 ^ 300 \<le> \<bar>snd (snd s)\<bar>)"

text \<open>
  A frequency whose step \<open>1000 / frequency\<close> is a positive integer of magnitude at most
  \<open>2^50\<close>: the quotient is exact in binary64, and so is every sum \<open>t + 1000 / frequency\<close>
  that \<open>resample\<close> forms from an integer \<open>t\<close> below an \<open>exact_time\<close> bound.
\<close>

definition exact_step :: "real \<Rightarrow> bool" where
  "exact_step frequency \<longleftrightarrow>
     0 < frequency \<and> real_of_int \<lfloor>1000 / frequency\<rfloor> = 1000 / frequency \<and>
     1000 / frequency \<le> 2 ^ 50"

section \<open>Predicates for the statements on the sweep\<close>

text \<open>
  The coordinates \<open>c\<close> are those of the first sample of a bracket of zero width in \<open>d\<close>:
  of a sample whose successor has the same timestamp.
\<close>

definition zero_width :: "sample list \<Rightarrow> coords \<Rightarrow> bool" where
  "zero_width d c \<longleftrightarrow>
     (\<exists>j<length d - 1. fst (d ! j) = fst (d ! Suc j) \<and> snd (d ! j) = c)"

text \<open>
  What the sweep can append to \<open>inter\<close> for the reference sample \<open>c\<close>: a point that
  passed the outlier test, the reference sample itself, or the reference time with the
  coordinates of the first sample of a zero-width bracket of the source.
\<close>

definition guarded :: "sample list \<Rightarrow> sample \<Rightarrow> sample \<Rightarrow> bool" where
  "guarded source c e \<longleftrightarrow>
     (\<bar>fst (snd e)\<bar> \<le> 600 \<and> \<bar>snd (snd e)\<bar> \<le> 600) \<or> e = c \<or>
     (fst e = fst c \<and> zero_width source (snd e))"

section \<open>Lemmas on the alignment\<close>

lemma interpolate_oriented_flag:
  "interpolate_oriented (\<not> flipped) data1 data2 interpolation True =
   map_sum id prod.swap (interpolate_oriented flipped data1 data2 interpolation True)"
  by (auto simp: interpolate_oriented_def split: sum.splits prod.splits)

lemma map_sum_swap_swap: "map_sum id prod.swap (map_sum id prod.swap r) = r"
  by (cases r) auto

lemma next_index_None: "next_index ps t0 i = None \<longleftrightarrow> (\<forall>p\<in>set ps. fst p \<le> t0)"
  by (induction ps arbitrary: i) auto

lemma py_nth_in_range: "k < length xs \<Longrightarrow> py_nth xs (int k) = Inr (xs ! k)"
  by (simp add: py_nth_def)

lemma py_nth_int: "py_nth xs (int k) = Inr b \<Longrightarrow> k < length xs \<and> b = xs ! k"
  by (auto simp: py_nth_def Let_def split: if_splits)

lemma py_nth_int_Suc: "py_nth xs (int k + 1) = Inr a \<Longrightarrow> Suc k < length xs \<and> a = xs ! Suc k"
  using py_nth_int [of xs "Suc k" a] by (simp add: add.commute)

lemma zero_width_drop: "zero_width (drop n d) c \<Longrightarrow> zero_width d c"
proof -
  assume "zero_width (drop n d) c"
  then obtain j where j: "j < length (drop n d) - 1"
    and eq: "fst (drop n d ! j) = fst (drop n d ! Suc j)" "snd (drop n d ! j) = c"
    by (auto simp: zero_width_def)
  from j have "n + j < length d - 1" by simp
  moreover from j eq have "fst (d ! (n + j)) = fst (d ! Suc (n + j))" "snd (d ! (n + j)) = c"
    by simp_all
  ultimately show ?thesis unfolding zero_width_def by blast
qed

lemma sweep_step:
  assumes "sweep interpolation data2 (between # rest) j inters clean = Inr r"
  shows "r = (clean @ [between], inters) \<or>
         (\<exists>e j'. guarded data2 between e \<and>
            sweep interpolation data2 rest j' (inters @ [e]) (clean @ [between]) = Inr r)"
proof -
  let ?j = "advance data2 (fst between) j"
  show ?thesis
  proof (cases "int ?j = int (length data2) - 1")
    case True
    with assms show ?thesis by (simp add: Let_def)
  next
    case False
    note nobreak = this
    from assms False obtain b a where
      b: "py_nth data2 (int ?j) = Inr b" and a: "py_nth data2 (int ?j + 1) = Inr a"
      by (auto simp: Let_def split: sum.splits)
    from py_nth_int [OF b] py_nth_int_Suc [OF a]
    have idx: "Suc ?j < length data2" "b = data2 ! ?j" "a = data2 ! Suc ?j" by simp_all
    show ?thesis
    proof (cases "fst a - fst b = 0")
      case True
      with assms nobreak a b
      have "sweep interpolation data2 rest ?j (inters @ [(fst between, snd b)])
              (clean @ [between]) = Inr r"
        by (simp add: Let_def)
      moreover have "zero_width data2 (snd b)"
        using True idx unfolding zero_width_def by (intro exI [of _ ?j]) simp
      then have "guarded data2 between (fst between, snd b)"
        by (simp add: guarded_def)
      ultimately show ?thesis by blast
    next
      case False
      let ?x = "interpolation (snd b) (snd a) ((fst between - fst b) / (fst a - fst b))"
      show ?thesis
      proof (cases "\<bar>fst ?x\<bar> > 600 \<or> \<bar>snd ?x\<bar> > 600")
        case True
        with assms nobreak a b False
        have "sweep interpolation data2 rest ?j (inters @ [between]) (clean @ [between]) = Inr r"
          by (simp add: Let_def)
        moreover have "guarded data2 between between" by (simp add: guarded_def)
        ultimately show ?thesis by blast
      next
        case inside: False
        with assms nobreak a b False
        have "sweep interpolation data2 rest ?j (inters @ [(fst between, ?x)])
                (clean @ [between]) = Inr r"
          by (simp add: Let_def)
        moreover have "guarded data2 between (fst between, ?x)"
          using inside by (simp add: guarded_def not_less)
        ultimately show ?thesis by blast
      qed
    qed
  qed
qed

lemma sweep_guarded:
  assumes "sweep interpolation data2 xs j inters clean = Inr (clean', inters')"
    and "length inters = length clean"
    and "\<forall>k<length inters. guarded data2 (clean ! k) (inters ! k)"
  shows "length inters' \<le> length clean' \<and> length clean' \<le> length inters' + 1 \<and>
         length clean' \<le> length clean + length xs \<and>
         (\<forall>k<length inters'. guarded data2 (clean' ! k) (inters' ! k))"
  using assms
proof (induction xs arbitrary: j inters clean)
  case Nil
  then show ?case by simp
next
  case (Cons between rest)
  from sweep_step [OF Cons.prems(1)]
  show ?case
  proof
    assume "(clean', inters') = (clean @ [between], inters)"
    with Cons.prems(2,3) show ?thesis by (simp add: nth_append)
  next
    assume "\<exists>e j'. guarded data2 between e \<and>
      sweep interpolation data2 rest j' (inters @ [e]) (clean @ [between]) = Inr (clean', inters')"
    then obtain e j' where g: "guarded data2 between e"
      and s: "sweep interpolation data2 rest j' (inters @ [e]) (clean @ [between]) =
              Inr (clean', inters')"
      by blast
    have len: "length (inters @ [e]) = length (clean @ [between])"
      using Cons.prems(2) by simp
    have inv: "\<forall>k<length (inters @ [e]).
                 guarded data2 ((clean @ [between]) ! k) ((inters @ [e]) ! k)"
      using Cons.prems(2,3) g by (auto simp: nth_append less_Suc_eq)
    from Cons.IH [OF s len inv] show ?thesis by simp
  qed
qed

lemma head_trim_length:
  "head_trim data1 data2 = Inr d \<Longrightarrow> length d \<le> length data1 \<and> set d \<subseteq> set data1"
  by (auto simp: head_trim_def py_slice_from_def split: option.splits if_splits
        dest: in_set_dropD)

lemma head_trim_drop: "head_trim data1 data2 = Inr d \<Longrightarrow> \<exists>n. d = drop n data1"
  by (auto simp: head_trim_def py_slice_from_def split: option.splits if_splits)

lemma interpolate_unflip_cases:
  assumes "interpolate data1 data2 interpolation unflip = Inr (r1, r2)"
  shows "\<exists>clean inters.
           interpolate data1 data2 interpolation False = Inr (clean, inters) \<and>
           ((r1, r2) = (clean, inters) \<or> unflip \<and> (r1, r2) = (inters, clean))"
  using assms
  by (auto simp: interpolate_def interpolate_oriented_def Let_def
        split: if_splits sum.splits prod.splits)

lemma interpolate_lengths:
  assumes "interpolate data1 data2 interpolation False = Inr (clean, inters)"
  shows "length inters \<le> length clean \<and> length clean \<le> length inters + 1 \<and>
         length clean \<le> min (length data1) (length data2)"
proof -
  from assms have ne: "data1 \<noteq> []" "data2 \<noteq> []"
    by (auto simp: interpolate_def split: if_splits)
  obtain flipped d1 d2 where o: "orient data1 data2 = (flipped, d1, d2)"
    by (cases "orient data1 data2") auto
  then have lens: "min (length d1) (length d2) = min (length data1) (length data2)"
    by (auto simp: orient_def split: if_splits)
  from assms ne o obtain d1' where ht: "head_trim d1 d2 = Inr d1'"
    by (auto simp: interpolate_def interpolate_oriented_def split: sum.splits)
  from head_trim_length [OF ht] have le: "length d1' \<le> length d1" by simp
  obtain flipped' reference source where
    r: "(if length d1' > length d2 then (\<not> flipped, d2, d1') else (flipped, d1', d2)) =
        (flipped', reference, source)"
    by (metis prod_cases3)
  then have "length reference \<le> min (length d1) (length d2)"
    using le by (auto split: if_splits)
  moreover
  from assms ne o ht r
  have sw: "sweep interpolation source reference 0 [] [] = Inr (clean, inters)"
    by (auto simp: interpolate_def interpolate_oriented_def split: sum.splits)
  from sweep_guarded [OF sw]
  have "length inters \<le> length clean" "length clean \<le> length inters + 1"
    "length clean \<le> length reference"
    by auto
  ultimately show ?thesis using lens by simp
qed

section \<open>Lemmas on resampling and break removal\<close>

lemma seek_finds:
  assumes top: "t < fst (last timestamped)"
  shows "n = length timestamped - i \<Longrightarrow> i < length timestamped \<Longrightarrow>
   (0 < i \<longrightarrow> fst (timestamped ! (i - 1)) < t) \<Longrightarrow>
   \<exists>i'. seek timestamped t i = Inr i' \<and> i' < length timestamped \<and>
        t \<le> fst (timestamped ! i') \<and> (0 < i' \<longrightarrow> fst (timestamped ! (i' - 1)) < t)"
proof (induction n arbitrary: i)
  case 0
  then show ?case by simp
next
  case (Suc n)
  show ?case
  proof (cases "fst (timestamped ! i) < t")
    case True
    from Suc.prems have ne: "timestamped \<noteq> []" by auto
    have "i \<noteq> length timestamped - 1"
    proof
      assume "i = length timestamped - 1"
      then have "timestamped ! i = last timestamped" using ne by (simp add: last_conv_nth)
      with True top show False by simp
    qed
    with Suc.prems have less: "i + 1 < length timestamped" by linarith
    from True Suc.prems have eq: "seek timestamped t i = seek timestamped t (i + 1)"
      by (subst seek.simps) simp
    have "n = length timestamped - (i + 1)" using Suc.prems by linarith
    from Suc.IH [OF this less] True show ?thesis unfolding eq by simp
  next
    case False
    with Suc.prems have "seek timestamped t i = Inr i" by (subst seek.simps) auto
    with False Suc.prems show ?thesis by auto
  qed
qed

lemma py_nth_before:
  "i < length xs \<Longrightarrow>
   py_nth xs (int i - 1) = Inr (if i = 0 then last xs else xs ! (i - 1))"
proof (cases i)
  case 0
  assume "i < length xs"
  then have ne: "xs \<noteq> []" by auto
  then have "nat (int (length xs) - 1) = length xs - 1" by (cases xs) simp_all
  with 0 ne show ?thesis by (simp add: py_nth_def Let_def last_conv_nth)
next
  case (Suc m)
  assume "i < length xs"
  with Suc show ?thesis by (simp add: py_nth_def Let_def)
qed

lemma resample_loop_run:
  assumes f: "0 < frequency"
    and span: "fst (hd timestamped) < fst (last timestamped)"
  shows "n = nat \<lceil>(fst (last timestamped) - t) * frequency / 1000\<rceil> \<Longrightarrow>
    i < length timestamped \<Longrightarrow> (0 < i \<longrightarrow> fst (timestamped ! (i - 1)) < t) \<Longrightarrow>
    \<exists>outs. resample_loop timestamped frequency (fst (last timestamped)) i t resampled =
             Some (Inr (resampled @ outs)) \<and>
           length outs = n \<and> (\<forall>k<n. fst (outs ! k) = t + real k * (1000 / frequency))"
proof (induction n arbitrary: i t resampled)
  case 0
  then have "(fst (last timestamped) - t) * frequency / 1000 \<le> 0" by simp
  with f have "\<not> t < fst (last timestamped)"
    by (simp add: divide_le_0_iff mult_le_0_iff)
  then have "resample_loop timestamped frequency (fst (last timestamped)) i t resampled =
             Some (Inr resampled)"
    by (subst resample_loop.simps) simp
  then show ?case by simp
next
  case (Suc n)
  let ?tmax = "fst (last timestamped)"
  let ?step = "1000 / frequency"
  from Suc.prems(1) have pos: "0 < (?tmax - t) * frequency / 1000" by linarith
  with f have lt: "t < ?tmax" by (simp add: zero_less_mult_iff)
  from seek_finds [OF lt refl Suc.prems(2,3)] obtain i' where
    sk: "seek timestamped t i = Inr i'" and b: "i' < length timestamped"
    and ge: "t \<le> fst (timestamped ! i')"
    and prev: "0 < i' \<longrightarrow> fst (timestamped ! (i' - 1)) < t"
    by blast
  let ?prev = "if i' = 0 then last timestamped else timestamped ! (i' - 1)"
  let ?cur = "timestamped ! i'"
  have p1: "py_nth timestamped (int i' - 1) = Inr ?prev" using b by (rule py_nth_before)
  have p2: "py_nth timestamped (int i') = Inr ?cur" using b by (rule py_nth_in_range)
  have dt2: "fst ?cur - fst ?prev \<noteq> 0"
  proof (cases "i' = 0")
    case True
    with b have "timestamped ! i' = hd timestamped" by (simp add: hd_conv_nth)
    with True span show ?thesis by simp
  next
    case False
    with prev ge show ?thesis by simp
  qed
  let ?pt = "(t, interpolation_linear (snd ?prev) (snd ?cur)
                   ((t - fst ?prev) / (fst ?cur - fst ?prev)))"
  have unfold: "resample_loop timestamped frequency ?tmax i t resampled =
        resample_loop timestamped frequency ?tmax i' (t + ?step) (resampled @ [?pt])"
    using lt sk p1 p2 dt2 f by (subst resample_loop.simps) (simp add: Let_def)
  have "(?tmax - (t + ?step)) * frequency / 1000 = (?tmax - t) * frequency / 1000 - 1"
    using f by (simp add: field_simps)
  then have "\<lceil>(?tmax - (t + ?step)) * frequency / 1000\<rceil> =
             \<lceil>(?tmax - t) * frequency / 1000\<rceil> - 1"
    by (simp only: ceiling_diff_one)
  with Suc.prems(1) have n: "n = nat \<lceil>(?tmax - (t + ?step)) * frequency / 1000\<rceil>"
    by linarith
  have inv: "0 < i' \<longrightarrow> fst (timestamped ! (i' - 1)) < t + ?step"
    using prev f by (auto intro: less_trans)
  from Suc.IH [OF n b inv, of "resampled @ [?pt]"] obtain outs where
    run: "resample_loop timestamped frequency ?tmax i' (t + ?step) (resampled @ [?pt]) =
          Some (Inr ((resampled @ [?pt]) @ outs))"
    and len: "length outs = n"
    and ts: "\<forall>k<n. fst (outs ! k) = t + ?step + real k * ?step"
    by blast
  have "\<forall>k<Suc n. fst ((?pt # outs) ! k) = t + real k * ?step"
  proof (intro allI impI)
    fix k assume k: "k < Suc n"
    show "fst ((?pt # outs) ! k) = t + real k * ?step"
    proof (cases k)
      case 0
      then show ?thesis by simp
    next
      case (Suc m)
      with k ts have "fst (outs ! m) = t + ?step + real m * ?step" by simp
      with Suc show ?thesis by (simp add: add_divide_distrib)
    qed
  qed
  with run len unfold show ?case
    by (intro exI [of _ "?pt # outs"]) simp
qed

lemma skip_breaks_loop_no_break:
  "\<forall>k<length xs. fst (xs ! k) - (if k = 0 then t_prev else fst (xs ! (k - 1))) \<le> thr \<Longrightarrow>
   skip_breaks_loop thr xs tot t_prev skipped =
   skipped @ map (\<lambda>e. (fst e - tot, snd e)) xs"
proof (induction xs arbitrary: t_prev skipped)
  case Nil
  show ?case by simp
next
  case (Cons x rest)
  from Cons.prems have first: "fst x - t_prev \<le> thr" by fastforce
  have "\<forall>k<length rest. fst (rest ! k) - (if k = 0 then fst x else fst (rest ! (k - 1))) \<le> thr"
  proof (intro allI impI)
    fix k assume "k < length rest"
    with Cons.prems have
      "fst ((x # rest) ! Suc k) - (if Suc k = 0 then t_prev else fst ((x # rest) ! (Suc k - 1))) \<le> thr"
      by (metis length_Cons Suc_less_eq)
    then show "fst (rest ! k) - (if k = 0 then fst x else fst (rest ! (k - 1))) \<le> thr"
      by (cases k) simp_all
  qed
  from Cons.IH [OF this] first show ?case by (simp add: Let_def)
qed

lemma skip_breaks_loop_one_break:
  "i < length xs \<Longrightarrow>
   fst (xs ! i) - (if i = 0 then t_prev else fst (xs ! (i - 1))) = g \<Longrightarrow> thr < g \<Longrightarrow>
   \<forall>k<length xs. k \<noteq> i \<longrightarrow>
      fst (xs ! k) - (if k = 0 then t_prev else fst (xs ! (k - 1))) \<le> thr \<Longrightarrow>
   skip_breaks_loop thr xs tot t_prev skipped =
   skipped @ map (\<lambda>e. (fst e - tot, snd e)) (take i xs) @
     map (\<lambda>e. (fst e - (tot + g), snd e)) (drop i xs)"
proof (induction xs arbitrary: i t_prev skipped)
  case Nil
  then show ?case by simp
next
  case (Cons x rest)
  show ?case
  proof (cases i)
    case 0
    with Cons.prems have dt: "fst x - t_prev = g" by simp
    have "\<forall>k<length rest. fst (rest ! k) - (if k = 0 then fst x else fst (rest ! (k - 1))) \<le> thr"
    proof (intro allI impI)
      fix k assume "k < length rest"
      with Cons.prems(4) 0 have
        "fst ((x # rest) ! Suc k) -
           (if Suc k = 0 then t_prev else fst ((x # rest) ! (Suc k - 1))) \<le> thr"
        by (metis length_Cons Suc_less_eq nat.distinct(1))
      then show "fst (rest ! k) - (if k = 0 then fst x else fst (rest ! (k - 1))) \<le> thr"
        by (cases k) simp_all
    qed
    from skip_breaks_loop_no_break [OF this] dt Cons.prems(3) 0 show ?thesis
      by (simp add: Let_def)
  next
    case (Suc m)
    with Cons.prems(4) have first: "fst x - t_prev \<le> thr" by fastforce
    from Suc Cons.prems(1) have m: "m < length rest" by simp
    from Suc Cons.prems(2) have
      g: "fst (rest ! m) - (if m = 0 then fst x else fst (rest ! (m - 1))) = g"
      by (cases m) simp_all
    have others: "\<forall>k<length rest. k \<noteq> m \<longrightarrow>
        fst (rest ! k) - (if k = 0 then fst x else fst (rest ! (k - 1))) \<le> thr"
    proof (intro allI impI)
      fix k assume "k < length rest" "k \<noteq> m"
      with Cons.prems(4) Suc have
        "fst ((x # rest) ! Suc k) -
           (if Suc k = 0 then t_prev else fst ((x # rest) ! (Suc k - 1))) \<le> thr"
        by (metis length_Cons Suc_less_eq nat.inject)
      then show "fst (rest ! k) - (if k = 0 then fst x else fst (rest ! (k - 1))) \<le> thr"
        by (cases k) simp_all
    qed
    from Cons.IH [OF m g Cons.prems(3) others] first Suc show ?thesis
      by (simp add: Let_def)
  qed
qed

section \<open>Step-before interpolation\<close>

text \<open>
  C4. The claim: \<open>Interpolation.before\<close> returns the earlier bracket point \<open>x1\<close>. The code
  returns its second argument, the later point: at \<open>x1 = (0, 0)\<close>, \<open>x2 = (1, 1)\<close> the
  result is \<open>(1, 1)\<close> and differs from \<open>x1\<close>.
\<close>

theorem before_returns_endpoint:
  "interpolation_before (0, 0) (1, 1) 0 = (1, 1) \<and>
   interpolation_before (0, 0) (1, 1) 0 \<noteq> (0, 0)"
  by (simp add: interpolation_before_def)

section \<open>The aligner\<close>

text \<open>
  C1. The claim: \<open>clean\<close> and \<open>inter\<close> have equal length, at most the length of the
  shorter input, and the reference sample at which the sweep stops is in neither. The
  code appends the reference sample to \<open>clean\<close> before it tests for the stop: for
  \<open>A = [(0,0,0), (10,10,0), (20,20,0)]\<close> and \<open>B = [(0,0,0), (20,20,0)]\<close> the sweep stops at
  \<open>(20,20,0)\<close>, which is in \<open>clean\<close>, and \<open>clean\<close> has two elements where \<open>inter\<close> has one.
\<close>

theorem interpolate_clean_keeps_stop_sample:
  "interpolate [(0, 0, 0), (10, 10, 0), (20, 20, 0)] [(0, 0, 0), (20, 20, 0)]
     interpolation_linear False =
   Inr ([(0, 0, 0), (20, 20, 0)], [(0, 0, 0)])"
  by (simp add: interpolate_def interpolate_oriented_def orient_def head_trim_def
        py_slice_from_def py_nth_def advance.simps interpolation_linear_def Let_def)

text \<open>
  C2, as stated: for \<open>A = [(0,0,0), (10,10,0), (20,20,0)]\<close> and \<open>B = [(0,0,0), (20,20,0)]\<close>
  the aligner returns \<open>clean = [(0,0,0), (10,10,0)]\<close> and
  \<open>interpolated = [(0,0,0), (10,10,0)]\<close>. It does not: after the head trim \<open>A\<close> is the
  longer list, so \<open>B\<close> is the reference and \<open>A\<close> the source.
\<close>

theorem concrete_scenario_counterexample:
  "interpolate [(0, 0, 0), (10, 10, 0), (20, 20, 0)] [(0, 0, 0), (20, 20, 0)]
     interpolation_linear False \<noteq>
   Inr ([(0, 0, 0), (10, 10, 0)], [(0, 0, 0), (10, 10, 0)])"
  by (simp add: interpolate_def interpolate_oriented_def orient_def head_trim_def
        py_slice_from_def py_nth_def advance.simps interpolation_linear_def Let_def)

text \<open>
  C2, amended: for these inputs \<open>B\<close> is the reference; \<open>interpolated\<close> is \<open>[(0,0,0)]\<close>,
  \<open>clean\<close> begins with \<open>(0,0,0)\<close>, and the mean distance of the comparison is 0.
\<close>

theorem concrete_scenario:
  "\<exists>clean sigma.
     interpolate [(0, 0, 0), (10, 10, 0), (20, 20, 0)] [(0, 0, 0), (20, 20, 0)]
       interpolation_linear False = Inr (clean, [(0, 0, 0)]) \<and>
     take 1 clean = [(0, 0, 0)] \<and>
     compare_samples [(0, 0, 0), (10, 10, 0), (20, 20, 0)] [(0, 0, 0), (20, 20, 0)] =
       Inr (0, sigma)"
  by (simp add: compare_samples_def compute_data_similarity_def interpolate_def
        interpolate_oriented_def orient_def head_trim_def py_slice_from_def
        py_nth_def advance.simps interpolation_linear_def Let_def)

text \<open>
  C3, as stated: every element of \<open>interpolated\<close> has both coordinates within 600, for
  any input. It fails when the outlier test replaces a point by the reference sample,
  whose coordinates nothing bounds: aligning \<open>[(0,700,0), (10,700,0), (20,700,0)]\<close> with
  itself gives an interpolated \<open>x\<close> of 700.
\<close>

theorem outlier_bound_counterexample:
  "interpolate [(0, 700, 0), (10, 700, 0), (20, 700, 0)]
     [(0, 700, 0), (10, 700, 0), (20, 700, 0)] interpolation_linear False =
   Inr ([(0, 700, 0), (10, 700, 0), (20, 700, 0)], [(0, 700, 0), (10, 700, 0)]) \<and>
   \<not> \<bar>700 :: real\<bar> \<le> 600"
  by (simp add: interpolate_def interpolate_oriented_def orient_def head_trim_def
        py_slice_from_def py_nth_def advance.simps interpolation_linear_def Let_def)

text \<open>
  C3, amended: for inputs whose timestamps are integers of magnitude at most \<open>2^50\<close> and
  whose coordinates have magnitude at most \<open>2^300\<close>, the pair returned is \<open>(clean, inter)\<close>
  as computed with \<open>unflip\<close> off, in this order or, with \<open>unflip\<close> on, possibly swapped.
  Every element of \<open>inter\<close> has a partner at the same index of \<open>clean\<close>, and it either has
  both coordinates within 600, or is that reference sample itself (the substitute of the
  outlier test), or has the reference sample's time and the coordinates of the first
  sample of a zero-width bracket of one of the inputs.
\<close>

theorem interpolated_outlier_guard:
  assumes "interpolate data1 data2 interpolation unflip = Inr (r1, r2)"
    and "\<forall>s\<in>set data1 \<union> set data2. exact_time s \<and> no_overflow s"
  shows "\<exists>clean inters.
           interpolate data1 data2 interpolation False = Inr (clean, inters) \<and>
           ((r1, r2) = (clean, inters) \<or> unflip \<and> (r1, r2) = (inters, clean)) \<and>
           (\<forall>k<length inters. k < length clean \<and>
              ((\<bar>fst (snd (inters ! k))\<bar> \<le> 600 \<and> \<bar>snd (snd (inters ! k))\<bar> \<le> 600) \<or>
               inters ! k = clean ! k \<or>
               (fst (inters ! k) = fst (clean ! k) \<and>
                (zero_width data1 (snd (inters ! k)) \<or>
                 zero_width data2 (snd (inters ! k))))))"
proof -
  from interpolate_unflip_cases [OF assms(1)] obtain clean inters where
    res: "interpolate data1 data2 interpolation False = Inr (clean, inters)"
    and order: "(r1, r2) = (clean, inters) \<or> unflip \<and> (r1, r2) = (inters, clean)"
    by blast
  from res have ne: "data1 \<noteq> []" "data2 \<noteq> []"
    by (auto simp: interpolate_def split: if_splits)
  obtain flipped d1 d2 where o: "orient data1 data2 = (flipped, d1, d2)"
    by (cases "orient data1 data2") auto
  then have ds: "(d1 = data1 \<and> d2 = data2) \<or> (d1 = data2 \<and> d2 = data1)"
    by (auto simp: orient_def split: if_splits)
  from res ne o obtain d1' where ht: "head_trim d1 d2 = Inr d1'"
    by (auto simp: interpolate_def interpolate_oriented_def split: sum.splits)
  from head_trim_drop [OF ht] obtain n where n: "d1' = drop n d1" by blast
  obtain flipped' reference source where
    r: "(if length d1' > length d2 then (\<not> flipped, d2, d1') else (flipped, d1', d2)) =
        (flipped', reference, source)"
    by (metis prod_cases3)
  then have src: "source = d1' \<or> source = d2" by (auto split: if_splits)
  have zw: "zero_width data1 c \<or> zero_width data2 c" if "zero_width source c" for c
    using that src n ds zero_width_drop by blast
  from res ne o ht r
  have sw: "sweep interpolation source reference 0 [] [] = Inr (clean, inters)"
    by (auto simp: interpolate_def interpolate_oriented_def split: sum.splits)
  have "k < length clean \<and>
        ((\<bar>fst (snd (inters ! k))\<bar> \<le> 600 \<and> \<bar>snd (snd (inters ! k))\<bar> \<le> 600) \<or>
         inters ! k = clean ! k \<or>
         (fst (inters ! k) = fst (clean ! k) \<and>
          (zero_width data1 (snd (inters ! k)) \<or> zero_width data2 (snd (inters ! k)))))"
    if k: "k < length inters" for k
  proof -
    from sweep_guarded [OF sw] k
    have "k < length clean" and "guarded source (clean ! k) (inters ! k)" by auto
    then show ?thesis using zw unfolding guarded_def by blast
  qed
  with res order show ?thesis by blast
qed

theorem interpolated_outlier_guard_witness:
  "\<exists>clean inters.
     interpolate [(0, 700, 0), (10, 700, 0), (20, 700, 0)]
       [(0, 700, 0), (10, 700, 0), (20, 700, 0)] interpolation_linear False =
       Inr (clean, inters) \<and>
     clean = [(0, 700, 0), (10, 700, 0), (20, 700, 0)] \<and>
     inters = [(0, 700, 0), (10, 700, 0)] \<and>
     (\<forall>k<length inters. k < length clean \<and> inters ! k = clean ! k)"
proof -
  let ?X = "[(0, 700, 0), (10, 700, 0), (20, 700, 0)] :: sample list"
  have run: "interpolate ?X ?X interpolation_linear True = Inr (?X, [(0, 700, 0), (10, 700, 0)])"
    by (simp add: interpolate_def interpolate_oriented_def orient_def head_trim_def
          py_slice_from_def py_nth_def advance.simps interpolation_linear_def Let_def)
  have ok: "\<forall>s\<in>set ?X \<union> set ?X. exact_time s \<and> no_overflow s"
    by (simp add: exact_time_def no_overflow_def)
  from interpolated_outlier_guard [OF run ok] obtain clean inters where
    res: "interpolate ?X ?X interpolation_linear False = Inr (clean, inters)"
    and inv: "\<forall>k<length inters. k < length clean \<and>
      ((\<bar>fst (snd (inters ! k))\<bar> \<le> 600 \<and> \<bar>snd (snd (inters ! k))\<bar> \<le> 600) \<or>
       inters ! k = clean ! k \<or>
       (fst (inters ! k) = fst (clean ! k) \<and>
        (zero_width ?X (snd (inters ! k)) \<or> zero_width ?X (snd (inters ! k)))))"
    by blast
  from res have vals: "clean = ?X" "inters = [(0, 700, 0), (10, 700, 0)]"
    by (simp_all add: interpolate_def interpolate_oriented_def orient_def head_trim_def
          py_slice_from_def py_nth_def advance.simps interpolation_linear_def Let_def)
  have "\<forall>k<length inters. k < length clean \<and> inters ! k = clean ! k"
    unfolding vals by (simp add: less_Suc_eq nth_Cons' numeral_2_eq_2)
  with res vals show ?thesis by blast
qed

text \<open>
  C9, as stated: with \<open>unflip\<close> on, aligning \<open>(A, B)\<close> gives the swapped result of aligning
  \<open>(B, A)\<close>. It fails when both sequences start at the same time: no orientation swap
  happens in either call, and the head trim treats the first argument differently.
\<close>

theorem unflip_swap_counterexample:
  "interpolate [(0, 0, 0), (10, 10, 0), (20, 20, 0)] [(0, 0, 0), (20, 20, 0)]
     interpolation_linear True \<noteq>
   map_sum id prod.swap
     (interpolate [(0, 0, 0), (20, 20, 0)] [(0, 0, 0), (10, 10, 0), (20, 20, 0)]
        interpolation_linear True)"
  by (simp add: interpolate_def interpolate_oriented_def orient_def head_trim_def
        py_slice_from_def py_nth_def advance.simps interpolation_linear_def Let_def)

text \<open>
  C9, amended: when the first timestamps of \<open>A\<close> and \<open>B\<close> differ, aligning \<open>(A, B)\<close> with
  \<open>unflip\<close> on gives the swapped result of aligning \<open>(B, A)\<close>, and fails exactly when the
  other call fails, with the same error.
\<close>

theorem interpolate_unflip_swap:
  assumes "A \<noteq> []" "B \<noteq> []" "fst (hd A) \<noteq> fst (hd B)"
  shows "interpolate A B interpolation True =
         map_sum id prod.swap (interpolate B A interpolation True)"
proof (cases "fst (hd A) > fst (hd B)")
  case True
  then have "\<not> fst (hd B) > fst (hd A)" by simp
  with True assms show ?thesis
    using interpolate_oriented_flag [of False B A interpolation]
    by (simp add: interpolate_def orient_def)
next
  case False
  with assms have lt: "fst (hd B) > fst (hd A)" by simp
  with False assms show ?thesis
    using interpolate_oriented_flag [of False A B interpolation]
    by (simp add: interpolate_def orient_def map_sum_swap_swap)
qed

theorem interpolate_unflip_swap_witness:
  "interpolate [(0, 0, 0), (10, 10, 0), (20, 20, 0)] [(5, 5, 0), (15, 15, 0)]
     interpolation_linear True =
   map_sum id prod.swap
     (interpolate [(5, 5, 0), (15, 15, 0)] [(0, 0, 0), (10, 10, 0), (20, 20, 0)]
        interpolation_linear True)"
  using interpolate_unflip_swap [of "[(0, 0, 0), (10, 10, 0), (20, 20, 0)]"
          "[(5, 5, 0), (15, 15, 0)]" interpolation_linear]
  by simp

text \<open>
  C10. On the oriented pair \<open>(d1, d2)\<close>: when no sample of \<open>d1\<close> is later than the first
  sample of \<open>d2\<close>, the head trim raises \<open>StopIteration\<close> and so does \<open>interpolate\<close>; when
  some sample is, the head trim returns a list.
\<close>

theorem head_trim_partial:
  assumes "data1 \<noteq> []" "data2 \<noteq> []" "orient data1 data2 = (flipped, d1, d2)"
  shows "((\<forall>p\<in>set d1. fst p \<le> fst (hd d2)) \<longrightarrow>
            head_trim d1 d2 = Inl StopIteration \<and>
            interpolate data1 data2 interpolation unflip = Inl StopIteration) \<and>
         ((\<exists>p\<in>set d1. fst p > fst (hd d2)) \<longrightarrow>
            (\<exists>trimmed. head_trim d1 d2 = Inr trimmed))"
proof (intro conjI impI)
  assume none: "\<forall>p\<in>set d1. fst p \<le> fst (hd d2)"
  then have "next_index d1 (fst (hd d2)) 0 = None" by (simp add: next_index_None)
  then show ht: "head_trim d1 d2 = Inl StopIteration" by (simp add: head_trim_def)
  with assms show "interpolate data1 data2 interpolation unflip = Inl StopIteration"
    by (simp add: interpolate_def interpolate_oriented_def)
next
  assume some: "\<exists>p\<in>set d1. fst p > fst (hd d2)"
  then have "next_index d1 (fst (hd d2)) 0 \<noteq> None"
    by (auto simp: next_index_None not_le)
  then show "\<exists>trimmed. head_trim d1 d2 = Inr trimmed"
    by (auto simp: head_trim_def)
qed

theorem head_trim_partial_witness:
  "interpolate [(0, 0, 0), (1, 1, 1)] [(5, 0, 0), (6, 1, 1)] interpolation_linear False =
     Inl StopIteration \<and>
   (\<exists>trimmed. head_trim [(0, 0, 0), (10, 10, 0), (20, 20, 0)] [(0, 0, 0), (20, 20, 0)] =
      Inr trimmed)"
  using head_trim_partial [of "[(0, 0, 0), (1, 1, 1)]" "[(5, 0, 0), (6, 1, 1)]" False
          "[(0, 0, 0), (1, 1, 1)]" "[(5, 0, 0), (6, 1, 1)]" interpolation_linear False]
        head_trim_partial [of "[(0, 0, 0), (10, 10, 0), (20, 20, 0)]" "[(0, 0, 0), (20, 20, 0)]"
          False "[(0, 0, 0), (10, 10, 0), (20, 20, 0)]" "[(0, 0, 0), (20, 20, 0)]"]
  by (simp add: orient_def)

section \<open>Emission threshold\<close>

text \<open>
  C5. The claim: a result is emitted exactly when its mean distance is strictly below
  the threshold. The code returns early only when the mean is above the threshold, so a
  mean equal to the threshold is printed: two replays with the same samples have mean
  distance 0, and with threshold 0 the result is printed although \<open>0 < 0\<close> is false.
\<close>

theorem print_result_emits_at_threshold:
  "compare_samples [(0, 0, 0), (10, 10, 0), (20, 20, 0)] [(0, 0, 0), (10, 10, 0), (20, 20, 0)] =
     Inr (0, 0) \<and>
   print_result 0 (0, 0) replay1 replay2 =
     Some \<lparr>similarity = 0, std_deviation = 0,
           name1 = player_name replay1, name2 = player_name replay2\<rparr> \<and>
   \<not> ((0 :: real) < 0)"
  by (simp add: print_result_def compare_samples_def compute_data_similarity_def
        interpolate_def interpolate_oriented_def orient_def head_trim_def py_slice_from_def
        py_nth_def advance.simps interpolation_linear_def Let_def)

section \<open>Resampling\<close>

text \<open>
  C6, as stated: for an input whose first timestamp is below its last, \<open>resample\<close> returns
  \<open>floor((t_max - t_min) * f / 1000)\<close> samples. The loop emits a sample for every
  \<open>t = t_min + k * 1000 / f\<close> below \<open>t_max\<close>, one more than the floor when the span is not
  a multiple of the step: from 0 to 25 at 100 Hz the samples are at 0, 10 and 20, and the
  floor of 2.5 is 2.
\<close>

theorem resample_count_counterexample:
  "resample [(0, 0, 0), (25, 25, 0)] 100 =
     Some (Inr [(0, 0, 0), (10, 10, 0), (20, 20, 0)]) \<and>
   length [(0, 0, 0), (10, 10, 0), (20, 20, 0) :: sample] \<noteq>
     nat \<lfloor>(25 - 0) * 100 / 1000 :: real\<rfloor>"
  by (simp add: resample_def resample_loop.simps seek.simps py_nth_def
        interpolation_linear_def Let_def)

text \<open>
  C6, amended: for a frequency \<open>f\<close> whose step \<open>1000 / f\<close> is a positive integer, and an
  input with integer timestamps (step and timestamps of magnitude at most \<open>2^50\<close>),
  coordinates that neither overflow nor underflow, and first timestamp \<open>t_min\<close> below the
  last \<open>t_max\<close>, \<open>resample\<close> returns; the result has \<open>ceiling((t_max - t_min) * f / 1000)\<close>
  samples, the \<open>k\<close>-th at time \<open>t_min + k * 1000 / f\<close>, so consecutive timestamps differ by
  exactly \<open>1000 / f\<close>. On these inputs every timestamp the source computes is an integer
  below \<open>2^52\<close>, so its float additions are exact; for other steps the accumulated rounding
  of \<open>t += 1000 / frequency\<close> can add a sample, and nothing is stated.
\<close>

theorem resample_count:
  assumes "exact_step frequency" "timestamped \<noteq> []"
    and "\<forall>s\<in>set timestamped. exact_time s \<and> no_overflow s \<and> no_underflow s"
    and "fst (hd timestamped) < fst (last timestamped)"
  shows "\<exists>resampled.
           resample timestamped frequency = Some (Inr resampled) \<and>
           length resampled =
             nat \<lceil>(fst (last timestamped) - fst (hd timestamped)) * frequency / 1000\<rceil> \<and>
           (\<forall>k<length resampled.
              fst (resampled ! k) = fst (hd timestamped) + real k * (1000 / frequency)) \<and>
           (\<forall>k. Suc k < length resampled \<longrightarrow>
              fst (resampled ! Suc k) - fst (resampled ! k) = 1000 / frequency)"
proof -
  from assms(2) obtain first rest where ts: "timestamped = first # rest"
    by (cases timestamped) auto
  have i: "0 < length timestamped" using assms(2) by simp
  from assms(1) have f: "0 < frequency" by (simp add: exact_step_def)
  from resample_loop_run [OF f assms(4) refl i, of "fst (hd timestamped)" "[]"]
  obtain outs where
    run: "resample_loop timestamped frequency (fst (last timestamped)) 0
            (fst (hd timestamped)) [] = Some (Inr outs)"
    and len: "length outs =
      nat \<lceil>(fst (last timestamped) - fst (hd timestamped)) * frequency / 1000\<rceil>"
    and at: "\<forall>k<length outs. fst (outs ! k) = fst (hd timestamped) + real k * (1000 / frequency)"
    by auto
  from run ts have "resample timestamped frequency = Some (Inr outs)"
    by (simp add: resample_def)
  moreover have "\<forall>k. Suc k < length outs \<longrightarrow>
      fst (outs ! Suc k) - fst (outs ! k) = 1000 / frequency"
  proof (intro allI impI)
    fix k assume k: "Suc k < length outs"
    then have "fst (outs ! Suc k) = fst (hd timestamped) + real (Suc k) * (1000 / frequency)"
      and "fst (outs ! k) = fst (hd timestamped) + real k * (1000 / frequency)"
      using at by simp_all
    then show "fst (outs ! Suc k) - fst (outs ! k) = 1000 / frequency"
      by (simp add: add_divide_distrib)
  qed
  ultimately show ?thesis using len at by blast
qed

theorem resample_count_witness:
  "\<exists>resampled. resample [(0, 0, 0), (25, 25, 0)] 100 = Some (Inr resampled) \<and>
     length resampled = 3 \<and>
     (\<forall>k. Suc k < length resampled \<longrightarrow>
              fst (resampled ! Suc k) - fst (resampled ! k) = 10)"
  using resample_count [of 100 "[(0, 0, 0), (25, 25, 0)]"]
  by (simp add: exact_step_def exact_time_def no_overflow_def no_underflow_def) blast

text \<open>
  C8, as stated: building the sample list from zero events fails, and \<open>resample\<close> fails on
  fewer than two samples. Neither holds: no statement of \<open>as_list_with_timestamps\<close> raises
  on an empty event list, and on one sample the loop of \<open>resample\<close> is not entered.
\<close>

theorem empty_inputs_counterexample:
  "as_list_with_timestamps \<lparr>player_name = ''p'', play_data = []\<rparr> = [] \<and>
   resample [(5, 1, 2)] 60 = Some (Inr [])"
  by (simp add: as_list_with_timestamps_def resample_def resample_loop.simps)

text \<open>
  C8, amended: building the sample list from zero events returns the empty list;
  \<open>resample\<close> raises \<open>IndexError\<close> on zero samples and returns the empty list on exactly
  one sample.
\<close>

theorem empty_inputs:
  "as_list_with_timestamps (self\<lparr>play_data := []\<rparr>) = [] \<and>
   resample [] frequency = Some (Inl IndexError) \<and>
   resample [s] frequency = Some (Inr [])"
  by (simp add: as_list_with_timestamps_def resample_def resample_loop.simps)

section \<open>Break removal\<close>

text \<open>
  C7, as stated: with exactly one gap \<open>g\<close> above the threshold, every gap of the output
  is at most the threshold. The collapsed gap has width 0, so this fails for a negative
  threshold: with threshold \<open>-1\<close> the samples at 0 and 5 have the one gap 5, and the
  output gap 0 is above \<open>-1\<close>.
\<close>

theorem skip_breaks_one_gap_counterexample:
  "(-1 :: real) < 5 - 0 \<and>
   skip_breaks [(0, 1, 1), (5, 2, 2)] (-1) = Inr [(0, 1, 1), (0, 2, 2)] \<and>
   \<not> ((0 :: real) - 0 \<le> -1)"
  by (simp add: skip_breaks_def)

text \<open>
  C7, amended: for a threshold that is not negative and an input with integer timestamps
  of magnitude at most \<open>2^50\<close> and exactly one gap \<open>g\<close> above the threshold, between samples
  \<open>i\<close> and \<open>i + 1\<close>, \<open>skip_breaks\<close> returns a list of the input's length with all
  coordinates and the timestamps of samples \<open>0\<close> to \<open>i\<close> unchanged, every timestamp from
  sample \<open>i + 1\<close> on reduced by exactly \<open>g\<close>, and every consecutive gap at most the
  threshold. On integer timestamps the subtractions of the source are exact; on other
  floats they round, a gap of the output can exceed the threshold by the rounding, and
  nothing is stated.
\<close>

theorem skip_breaks_one_gap:
  assumes thr: "0 \<le> break_threshold"
    and exact: "\<forall>s\<in>set timestamped. exact_time s"
    and i: "Suc i < length timestamped"
    and g: "g = fst (timestamped ! Suc i) - fst (timestamped ! i)" "break_threshold < g"
    and others: "\<forall>k. Suc k < length timestamped \<and> k \<noteq> i \<longrightarrow>
        fst (timestamped ! Suc k) - fst (timestamped ! k) \<le> break_threshold"
  shows "\<exists>skipped.
     skip_breaks timestamped break_threshold = Inr skipped \<and>
     length skipped = length timestamped \<and>
     (\<forall>k<length timestamped. snd (skipped ! k) = snd (timestamped ! k)) \<and>
     (\<forall>k\<le>i. fst (skipped ! k) = fst (timestamped ! k)) \<and>
     (\<forall>k. i < k \<and> k < length timestamped \<longrightarrow>
        fst (skipped ! k) = fst (timestamped ! k) - g) \<and>
     (\<forall>k. Suc k < length skipped \<longrightarrow>
        fst (skipped ! Suc k) - fst (skipped ! k) \<le> break_threshold)"
proof -
  let ?ts = timestamped
  let ?out = "map (\<lambda>e. (fst e - 0, snd e)) (take (Suc i) ?ts) @
              map (\<lambda>e. (fst e - (0 + g), snd e)) (drop (Suc i) ?ts)"
  from i obtain first rest where ts: "?ts = first # rest" by (cases ?ts) auto
  have gap: "fst (?ts ! Suc i) - (if Suc i = 0 then fst first else fst (?ts ! (Suc i - 1))) = g"
    using g(1) by simp
  have rest: "\<forall>k<length ?ts. k \<noteq> Suc i \<longrightarrow>
      fst (?ts ! k) - (if k = 0 then fst first else fst (?ts ! (k - 1))) \<le> break_threshold"
  proof (intro allI impI)
    fix k assume k: "k < length ?ts" "k \<noteq> Suc i"
    show "fst (?ts ! k) - (if k = 0 then fst first else fst (?ts ! (k - 1))) \<le> break_threshold"
    proof (cases k)
      case 0
      with ts thr show ?thesis by simp
    next
      case (Suc m)
      with k others show ?thesis by simp
    qed
  qed
  from skip_breaks_loop_one_break [OF i gap g(2) rest, of 0 "[]"]
  have run: "skip_breaks ?ts break_threshold = Inr ?out"
    by (simp add: skip_breaks_def ts)
  have at: "?out ! k = (fst (?ts ! k) - (if k \<le> i then 0 else g), snd (?ts ! k))"
    if "k < length ?ts" for k
    using that i by (auto simp: nth_append min_def not_le less_Suc_eq_le)
  have len: "length ?out = length ?ts" by simp
  have gaps: "\<forall>k. Suc k < length ?out \<longrightarrow> fst (?out ! Suc k) - fst (?out ! k) \<le> break_threshold"
  proof (intro allI impI)
    fix k assume "Suc k < length ?out"
    then have k: "Suc k < length ?ts" by simp
    then have k': "k < length ?ts" by simp
    show "fst (?out ! Suc k) - fst (?out ! k) \<le> break_threshold"
    proof (cases "k = i")
      case True
      with at [OF k] at [OF k'] g(1) thr show ?thesis by simp
    next
      case False
      with others k have "fst (?ts ! Suc k) - fst (?ts ! k) \<le> break_threshold" by simp
      with False at [OF k] at [OF k'] show ?thesis by (cases "k < i") simp_all
    qed
  qed
  have "\<forall>k<length ?ts. snd (?out ! k) = snd (?ts ! k)" using at by simp
  moreover have "\<forall>k\<le>i. fst (?out ! k) = fst (?ts ! k)" using at i by simp
  moreover have "\<forall>k. i < k \<and> k < length ?ts \<longrightarrow> fst (?out ! k) = fst (?ts ! k) - g"
    using at by simp
  ultimately show ?thesis using run len gaps by blast
qed

theorem skip_breaks_one_gap_witness:
  "\<exists>skipped.
     skip_breaks [(0, 1, 1), (5, 2, 2), (2000, 3, 3), (2010, 4, 4)] 1000 = Inr skipped \<and>
     length skipped = 4 \<and> fst (skipped ! 1) = 5 \<and>
     fst (skipped ! 2) = 2000 - 1995 \<and> fst (skipped ! 3) = 2010 - 1995"
proof -
  let ?ts = "[(0, 1, 1), (5, 2, 2), (2000, 3, 3), (2010, 4, 4)] :: sample list"
  have others: "\<forall>k. Suc k < length ?ts \<and> k \<noteq> 1 \<longrightarrow>
      fst (?ts ! Suc k) - fst (?ts ! k) \<le> 1000"
    by (auto simp: less_Suc_eq nth_Cons')
  have exact: "\<forall>s\<in>set ?ts. exact_time s" by (simp add: exact_time_def)
  from skip_breaks_one_gap [of 1000 ?ts 1 1995, OF _ exact _ _ _ others]
  obtain skipped where
    "skip_breaks ?ts 1000 = Inr skipped"
    "length skipped = 4"
    "\<forall>k\<le>1. fst (skipped ! k) = fst (?ts ! k)"
    "\<forall>k. 1 < k \<and> k < 4 \<longrightarrow> fst (skipped ! k) = fst (?ts ! k) - 1995"
    by auto
  then show ?thesis by (intro exI [of _ skipped]) simp
qed

end
